theory Spec2Isabelle
  imports Main "HOL-Library.Char_ord" "HOL-Library.List_Lexorder" "HOL-Library.Multiset"
begin

section \<open>Book-Alchemy: a library catalogue of authors and books\<close>

text \<open>
  The program is a Flask application (\<^verbatim>\<open>app.py\<close>) over two SQLAlchemy tables
  (\<^verbatim>\<open>data_models.py\<close>). Its handlers are embedded as functions that take the request
  and the request context (the database, the SQLAlchemy session, the flash queue) and
  return the response, or the exception that leaves the handler, with the new context.

  Text is a \<^typ>\<open>string\<close>, each \<^typ>\<open>char\<close> standing for the code point of the same
  number, so the model covers text over the code points 0 to 255. Strings are compared
  as the storage engine compares them (code point by code point, a proper prefix
  first), which is the order of \<^theory_text>\<open>List_Lexorder\<close> over \<^theory_text>\<open>Char_ord\<close>.
  Configurable resource limits of the interpreter and of the storage engine (the longest
  digit string \<^verbatim>\<open>int()\<close> converts, the longest LIKE pattern) are outside the model.
\<close>

subsection \<open>Data model (\<^verbatim>\<open>data_models.py\<close>)\<close>

text \<open>
  A value held by a column declared \<^verbatim>\<open>db.Integer\<close>. The handlers bind form text to
  such columns, and the engine keeps text that is not a number as text.
\<close>

datatype sqlval = SqlInt int | SqlText string

text \<open>
  \<^verbatim>\<open>class Author\<close>: \<^verbatim>\<open>id\<close> (primary key), \<^verbatim>\<open>name\<close> (not null), \<^verbatim>\<open>birth_date\<close>,
  \<^verbatim>\<open>date_of_death\<close> (both nullable).
\<close>

record author =
  a_id :: int
  name :: string
  birth_date :: "string option"
  date_of_death :: "string option"

text \<open>
  \<^verbatim>\<open>class Book\<close>: \<^verbatim>\<open>id\<close> (primary key), \<^verbatim>\<open>isbn\<close> (unique, not null), \<^verbatim>\<open>title\<close>
  (not null), \<^verbatim>\<open>publication_year\<close> (nullable), \<^verbatim>\<open>author_id\<close> (foreign key to
  \<^verbatim>\<open>authors.id\<close>, not null).
\<close>

record book =
  b_id :: int
  isbn :: string
  title :: string
  publication_year :: "sqlval option"
  author_id :: sqlval

text \<open>The two tables, each a list of rows in insertion order.\<close>

record db =
  authors :: "author list"
  books :: "book list"

text \<open>The engine's integers are the signed 64-bit ones.\<close>

definition int64 :: "int \<Rightarrow> bool" where
  "int64 n \<longleftrightarrow> - (2 ^ 63) \<le> n \<and> n < 2 ^ 63"

text \<open>The primary keys of a well-formed database are unique 64-bit integers.\<close>

definition primary_keys_ok :: "db \<Rightarrow> bool" where
  "primary_keys_ok d \<longleftrightarrow>
     distinct (map a_id (authors d)) \<and> distinct (map b_id (books d)) \<and>
     list_all (\<lambda>a. int64 (a_id a)) (authors d) \<and> list_all (\<lambda>b. int64 (b_id b)) (books d)"


subsection \<open>Requests, responses, errors and the request context\<close>

datatype http_method = GET | HEAD | POST

text \<open>
  \<^verbatim>\<open>request.args\<close> and \<^verbatim>\<open>request.form\<close> are multi-dictionaries: \<^verbatim>\<open>get\<close> returns the
  first value stored under the key.
\<close>

record request =
  "method" :: http_method
  args :: "(string \<times> string) list"
  form :: "(string \<times> string) list"

datatype error =
    NameError string | AttributeError string | ValueError | OverflowError
  | IntegrityError string

datatype response =
    Home_html "book list" "string option"
  | Add_author_html
  | Add_book_html "author list"
  | Redirect string

text \<open>
  The context a handler runs in: \<open>database\<close> is the committed state, which other
  requests read; \<open>session\<close> is the state the handler's own queries see (the committed
  state with the session's flushed changes); \<open>commit_log\<close> lists every state a
  \<^verbatim>\<open>db.session.commit()\<close> has made durable, oldest first; \<open>flashes\<close> is the flash
  queue, each entry a category and a message.
\<close>

record ctx =
  database :: db
  session :: db
  commit_log :: "db list"
  flashes :: "(string \<times> string) list"

type_synonym 'a handler = "ctx \<Rightarrow> (error + 'a) \<times> ctx"

text \<open>\<^verbatim>\<open>flash(message, category="message")\<close>\<close>

definition flash :: "string \<Rightarrow> string \<Rightarrow> ctx \<Rightarrow> ctx" where
  "flash message category c = c\<lparr>flashes := flashes c @ [(category, message)]\<rparr>"

text \<open>\<^verbatim>\<open>db.session.commit()\<close>\<close>

definition commit :: "ctx \<Rightarrow> ctx" where
  "commit c = c\<lparr>database := session c, commit_log := commit_log c @ [session c]\<rparr>"

text \<open>\<^verbatim>\<open>request.args.get(key, default)\<close>\<close>

definition get_or :: "(string \<times> string) list \<Rightarrow> string \<Rightarrow> string \<Rightarrow> string" where
  "get_or d key dflt = (case map_of d key of None \<Rightarrow> dflt | Some v \<Rightarrow> v)"

subsection \<open>Text operations of the interpreter and of the storage engine\<close>

text \<open>\<^verbatim>\<open>str.strip()\<close> removes the characters for which \<^verbatim>\<open>str.isspace()\<close> holds.\<close>

definition isspace :: "char \<Rightarrow> bool" where
  "isspace c \<longleftrightarrow> c \<in> set [CHR 0x09, CHR 0x0A, CHR 0x0B, CHR 0x0C, CHR 0x0D,
     CHR 0x1C, CHR 0x1D, CHR 0x1E, CHR 0x1F, CHR 0x20, CHR 0x85, CHR 0xA0]"

definition strip :: "string \<Rightarrow> string" where
  "strip s = rev (dropWhile isspace (rev (dropWhile isspace s)))"

text \<open>The engine's \<^verbatim>\<open>lower()\<close> folds the letters A to Z only.\<close>

definition sql_lower :: "char \<Rightarrow> char" where
  "sql_lower c =
     (case map_of (zip ''ABCDEFGHIJKLMNOPQRSTUVWXYZ'' ''abcdefghijklmnopqrstuvwxyz'') c of
        Some l \<Rightarrow> l
      | None \<Rightarrow> c)"

text \<open>
  The engine's pattern matcher behind LIKE: \<^verbatim>\<open>%\<close> stands for any run of characters,
  \<^verbatim>\<open>_\<close> for any one character, and every other character for itself, the letters A
  to Z without regard to case.
\<close>

fun patternCompare :: "string \<Rightarrow> string \<Rightarrow> bool" where
  "patternCompare [] [] = True"
| "patternCompare [] (c # cs) = False"
| "patternCompare (p # ps) [] = (p = CHR ''%'' \<and> patternCompare ps [])"
| "patternCompare (p # ps) (c # cs) =
     (if p = CHR ''%'' then patternCompare ps (c # cs) \<or> patternCompare (p # ps) cs
      else if p = CHR ''_'' then patternCompare ps cs
      else sql_lower p = sql_lower c \<and> patternCompare ps cs)"

text \<open>
  The engine's \<^verbatim>\<open>text LIKE pattern\<close>. The matcher reads both operands as C strings:
  each ends before its first NUL character, whatever follows it.
\<close>

definition until_nul :: "string \<Rightarrow> string" where
  "until_nul s = takeWhile (\<lambda>c. c \<noteq> CHR 0x00) s"

definition like :: "string \<Rightarrow> string \<Rightarrow> bool" where
  "like pattern text = patternCompare (until_nul pattern) (until_nul text)"

text \<open>
  \<^verbatim>\<open>column.ilike(pattern)\<close>, which SQLAlchemy renders for this engine as
  \<^verbatim>\<open>lower(column) LIKE lower(pattern)\<close>.
\<close>

definition ilike :: "string \<Rightarrow> string \<Rightarrow> bool" where
  "ilike column pattern = like (map sql_lower pattern) (map sql_lower column)"

subsection \<open>Listing: \<^verbatim>\<open>home\<close> (GET) and \<^verbatim>\<open>library_home\<close>\<close>

text \<open>
  \<^verbatim>\<open>Book.query.join(Author)\<close>: the rows of \<^verbatim>\<open>books JOIN authors ON authors.id =
  books.author_id\<close>.
\<close>

definition join_author :: "db \<Rightarrow> (book \<times> author) list" where
  "join_author d =
     concat (map (\<lambda>b. map (\<lambda>a. (b, a)) (filter (\<lambda>a. author_id b = SqlInt (a_id a)) (authors d)))
       (books d))"

text \<open>
  \<^verbatim>\<open>order_by(column.asc())\<close> and \<^verbatim>\<open>order_by(column.desc())\<close>. SQL leaves the order of
  rows with equal keys open; the model keeps them in the order of the join when
  ascending and reverses the ascending list when descending.
\<close>

datatype ordering = Asc | Desc

definition order_by :: "('r \<Rightarrow> string) \<Rightarrow> ordering \<Rightarrow> 'r list \<Rightarrow> 'r list" where
  "order_by key dir rows = (case dir of Asc \<Rightarrow> sort_key key rows | Desc \<Rightarrow> rev (sort_key key rows))"

definition Book_title :: "book \<times> author \<Rightarrow> string" where
  "Book_title r = title (fst r)"

definition Author_name :: "book \<times> author \<Rightarrow> string" where
  "Author_name r = name (snd r)"

text \<open>Lines 28 to 49 of \<^verbatim>\<open>home\<close>: the rows behind \<^verbatim>\<open>books_query.all()\<close>.\<close>

definition home_rows :: "request \<Rightarrow> db \<Rightarrow> (book \<times> author) list" where
  "home_rows req d =
     (let search_query = strip (get_or (args req) ''search'' []);
          sort_by = get_or (args req) ''sort_by'' ''title'';
          direction = get_or (args req) ''direction'' ''asc'';
          books_query = join_author d;
          books_query =
            (if search_query \<noteq> [] then
               filter (\<lambda>r. ilike (title (fst r)) (''%'' @ search_query @ ''%'') \<or>
                            ilike (name (snd r)) (''%'' @ search_query @ ''%'')) books_query
             else books_query)
      in if sort_by = ''author'' then
           order_by Author_name (if direction = ''asc'' then Asc else Desc) books_query
         else
           order_by Book_title (if direction = ''asc'' then Asc else Desc) books_query)"

text \<open>Lines 159 to 169 of \<^verbatim>\<open>library_home\<close>.\<close>

definition library_rows :: "request \<Rightarrow> db \<Rightarrow> (book \<times> author) list" where
  "library_rows req d =
     (let sort_by = get_or (args req) ''sort_by'' ''title'';
          direction = get_or (args req) ''direction'' ''asc'';
          sort_by = (if sort_by \<notin> set [''title'', ''author''] then ''title'' else sort_by);
          order = (if sort_by = ''title'' then Book_title else Author_name)
      in order_by order (if direction = ''desc'' then Desc else Asc) (join_author d))"

definition library_home :: "request \<Rightarrow> response handler" where
  "library_home req c = (Inr (Home_html (map fst (library_rows req (session c))) None), c)"

subsection \<open>Deleting a book: \<^verbatim>\<open>home\<close> (POST) and \<^verbatim>\<open>delete_book\<close>\<close>

text \<open>
  \<^verbatim>\<open>int(text)\<close> in base ten: white space around the number, an optional sign, then
  digits, single underscores allowed between two digits. Anything else raises
  \<^verbatim>\<open>ValueError\<close>. Of the control characters \<^verbatim>\<open>str.strip()\<close> removes, \<^verbatim>\<open>int()\<close>
  does not accept 0x1C to 0x1F.
\<close>

definition int_space :: "char \<Rightarrow> bool" where
  "int_space c \<longleftrightarrow> c \<in> set [CHR 0x09, CHR 0x0A, CHR 0x0B, CHR 0x0C, CHR 0x0D, CHR 0x20,
     CHR 0x85, CHR 0xA0]"

definition digit_val :: "char \<Rightarrow> nat option" where
  "digit_val c = map_of (zip ''0123456789'' [0, 1, 2, 3, 4, 5, 6, 7, 8, 9]) c"

fun digits :: "nat \<Rightarrow> string \<Rightarrow> nat option" where
  "digits acc [] = Some acc"
| "digits acc [c] = (case digit_val c of None \<Rightarrow> None | Some v \<Rightarrow> Some (10 * acc + v))"
| "digits acc (c # d # cs) =
     (case digit_val c of
        Some v \<Rightarrow> digits (10 * acc + v) (d # cs)
      | None \<Rightarrow> if c = CHR ''_'' \<and> digit_val d \<noteq> None then digits acc (d # cs) else None)"

definition unsigned :: "string \<Rightarrow> nat option" where
  "unsigned s =
     (case s of
        [] \<Rightarrow> None
      | c # cs \<Rightarrow> if digit_val c = None then None else digits 0 s)"

definition py_int :: "string \<Rightarrow> error + int" where
  "py_int text =
     (let s = rev (dropWhile int_space (rev (dropWhile int_space text)));
          (negative, body) =
            (case s of
               [] \<Rightarrow> (False, s)
             | c # cs \<Rightarrow> if c = CHR ''-'' then (True, cs)
                        else if c = CHR ''+'' then (False, cs) else (False, s))
      in case unsigned body of
           None \<Rightarrow> Inl ValueError
         | Some n \<Rightarrow> Inr (if negative then - int n else int n))"

text \<open>
  \<^verbatim>\<open>Book.query.get(ident)\<close> with an integer taken from the request: the row with that
  primary key, if any. The driver refuses to bind an integer outside the 64-bit range
  (\<^verbatim>\<open>OverflowError\<close>).
\<close>

definition Book_query_get :: "int \<Rightarrow> db \<Rightarrow> error + book option" where
  "Book_query_get ident d =
     (if int64 ident then Inr (find (\<lambda>b. b_id b = ident) (books d)) else Inl OverflowError)"

text \<open>
  \<^verbatim>\<open>Author.query.get(author_id)\<close> and \<^verbatim>\<open>book.author\<close>, with the \<^verbatim>\<open>author_id\<close> read
  from a stored book. The primary key of an author is an integer, so a text value
  finds no row.
\<close>

definition Author_query_get :: "sqlval \<Rightarrow> db \<Rightarrow> author option" where
  "Author_query_get ident d =
     (case ident of
        SqlInt n \<Rightarrow> find (\<lambda>a. a_id a = n) (authors d)
      | SqlText t \<Rightarrow> None)"

text \<open>\<^verbatim>\<open>db.session.delete(book)\<close>: the row with the book's primary key goes.\<close>

definition session_delete_book :: "book \<Rightarrow> ctx \<Rightarrow> ctx" where
  "session_delete_book b c =
     c\<lparr>session := (session c)\<lparr>books := filter (\<lambda>x. b_id x \<noteq> b_id b) (books (session c))\<rparr>\<rparr>"

text \<open>
  \<^verbatim>\<open>db.session.delete(author)\<close>: the row with the author's primary key goes. The
  handlers reach it only after counting that no book references the author.
\<close>

definition session_delete_author :: "author \<Rightarrow> ctx \<Rightarrow> ctx" where
  "session_delete_author a c =
     c\<lparr>session := (session c)\<lparr>authors := filter (\<lambda>x. a_id x \<noteq> a_id a) (authors (session c))\<rparr>\<rparr>"

text \<open>\<^verbatim>\<open>Book.query.filter_by(author_id=author_id).count()\<close>\<close>

definition count_books_of :: "sqlval \<Rightarrow> db \<Rightarrow> nat" where
  "count_books_of aid d = length (filter (\<lambda>b. author_id b = aid) (books d))"

text \<open>Lines 59 to 72 of \<^verbatim>\<open>home\<close>: the branch taken when the book was found.\<close>

definition home_delete_found :: "book \<Rightarrow> ctx \<Rightarrow> ctx" where
  "home_delete_found book_to_delete c =
     (let aid = author_id book_to_delete;
          c = commit (session_delete_book book_to_delete c);
          remaining_books = count_books_of aid (session c);
          c = (if remaining_books = 0 then
                 (case Author_query_get aid (session c) of
                    Some author_to_delete \<Rightarrow> commit (session_delete_author author_to_delete c)
                  | None \<Rightarrow> c)
               else c)
      in flash ''Book successfully deleted!'' ''success'' c)"

text \<open>
  \<^verbatim>\<open>home\<close>. The listing is queried first, whatever the method; a POST then handles the
  deletion and redirects, any other method renders the listing. Only \<^verbatim>\<open>ValueError\<close>
  is caught.
\<close>

definition home :: "request \<Rightarrow> response handler" where
  "home req c =
     (let search_query = strip (get_or (args req) ''search'' []);
          books = map fst (home_rows req (session c))
      in if method req = POST then
           (case map_of (form req) ''delete_book_id'' of
              None \<Rightarrow> (Inr (Redirect ''home''), c)
            | Some book_id_to_delete \<Rightarrow>
                if book_id_to_delete \<noteq> [] then
                  (case py_int book_id_to_delete of
                     Inl ValueError \<Rightarrow> (Inr (Redirect ''home''), flash ''Invalid book ID!'' ''error'' c)
                   | Inl e \<Rightarrow> (Inl e, c)
                   | Inr ident \<Rightarrow>
                       (case Book_query_get ident (session c) of
                          Inl ValueError \<Rightarrow>
                            (Inr (Redirect ''home''), flash ''Invalid book ID!'' ''error'' c)
                        | Inl e \<Rightarrow> (Inl e, c)
                        | Inr (Some book_to_delete) \<Rightarrow>
                            (Inr (Redirect ''home''), home_delete_found book_to_delete c)
                        | Inr None \<Rightarrow>
                            (Inr (Redirect ''home''), flash ''Book ID not found!'' ''error'' c)))
                else (Inr (Redirect ''home''), c))
         else (Inr (Home_html books (Some search_query)), c))"

text \<open>
  The names bound at module level in \<^verbatim>\<open>app.py\<close> (its imports, definitions and
  assignments). Reading any other global name raises \<^verbatim>\<open>NameError\<close>.
\<close>

definition app_globals :: "string list" where
  "app_globals = [''Flask'', ''render_template'', ''request'', ''redirect'', ''url_for'', ''flash'',
     ''SQLAlchemy'', ''os'', ''db'', ''Author'', ''Book'', ''basedir'', ''app'', ''home'',
     ''add_author'', ''add_book'', ''clear_flash'', ''library_home'', ''delete_book'']"

definition global_name :: "string \<Rightarrow> error + unit" where
  "global_name n = (if n \<in> set app_globals then Inr () else Inl (NameError n))"

text \<open>
  Lines 191 to 198 of \<^verbatim>\<open>delete_book\<close>. Line 191 reads the attribute \<^verbatim>\<open>commit\<close>
  without calling it, which does nothing. \<^verbatim>\<open>author\<close> is \<^verbatim>\<open>book.author\<close> of line 189;
  \<^verbatim>\<open>author.id\<close> on \<^verbatim>\<open>None\<close> raises \<^verbatim>\<open>AttributeError\<close>.
\<close>

definition delete_book_cascade :: "author option \<Rightarrow> response handler" where
  "delete_book_cascade author c =
     (case author of
        None \<Rightarrow> (Inl (AttributeError ''id''), c)
      | Some a \<Rightarrow>
          (let remaining_books = count_books_of (SqlInt (a_id a)) (session c);
               c = (if remaining_books = 0 then commit (session_delete_author a c) else c)
           in (Inr (Redirect ''home''), flash ''Book deleted!'' ''success'' c)))"

text \<open>
  \<^verbatim>\<open>delete_book(book_id)\<close>; the route's \<^verbatim>\<open>int\<close> converter passes a natural number.
  When the book is found, line 190 evaluates the tuple \<^verbatim>\<open>db, session.delete(book)\<close>,
  reading the global names \<^verbatim>\<open>db\<close> and \<^verbatim>\<open>session\<close> in turn.
\<close>

definition delete_book :: "nat \<Rightarrow> response handler" where
  "delete_book book_id c =
     (case Book_query_get (int book_id) (session c) of
        Inl e \<Rightarrow> (Inl e, c)
      | Inr (Some book) \<Rightarrow>
          (let author = Author_query_get (author_id book) (session c)
           in case global_name ''db'' of
                Inl e \<Rightarrow> (Inl e, c)
              | Inr _ \<Rightarrow>
                  (case global_name ''session'' of
                     Inl e \<Rightarrow> (Inl e, c)
                   | Inr _ \<Rightarrow> delete_book_cascade author c))
      | Inr None \<Rightarrow> (Inr (Redirect ''home''), flash ''Book not found.'' ''danger'' c))"

subsection \<open>Creating rows: \<^verbatim>\<open>add_author\<close> and \<^verbatim>\<open>add_book\<close>\<close>

text \<open>The truth value of \<^verbatim>\<open>form.get(key)\<close>: false for \<^verbatim>\<open>None\<close> and for empty text.\<close>

definition truthy :: "string option \<Rightarrow> bool" where
  "truthy v = (case v of None \<Rightarrow> False | Some s \<Rightarrow> s \<noteq> [])"

text \<open>
  The key the engine gives a row inserted without one
  (\<^verbatim>\<open>primary_key=True, autoincrement=True\<close>): one more than the largest key in the
  table, and 1 in an empty table.
\<close>

definition next_id :: "int list \<Rightarrow> int" where
  "next_id ids = (case ids of [] \<Rightarrow> 1 | x # xs \<Rightarrow> fold max xs x + 1)"

text \<open>\<^verbatim>\<open>db.session.add(Author(...))\<close>, flushed: no constraint can fail once \<^verbatim>\<open>name\<close> is set.\<close>

definition session_add_author :: "string \<Rightarrow> string option \<Rightarrow> string option \<Rightarrow> ctx \<Rightarrow> ctx" where
  "session_add_author n b d c =
     c\<lparr>session := (session c)\<lparr>authors := authors (session c) @
        [\<lparr>a_id = next_id (map a_id (authors (session c))), name = n, birth_date = b,
          date_of_death = d\<rparr>]\<rparr>\<rparr>"

definition add_author :: "request \<Rightarrow> response handler" where
  "add_author req c =
     (if method req = POST then
        (let name = map_of (form req) ''name'';
             birth_date = map_of (form req) ''birthdate'';
             date_of_death = map_of (form req) ''date_of_death'';
             c = (if \<not> truthy name \<or> \<not> truthy birth_date then
                    flash ''Please insert all required dates.'' ''message'' c
                  else
                    flash ''Author successfully added!'' ''message''
                      (commit (session_add_author (the name) birth_date date_of_death c)))
         in (Inr (Redirect ''add_author''), flash ''Author successfully added!'' ''success'' c))
      else (Inr Add_author_html, c))"

text \<open>
  What the repository leaves to the storage engine: how the engine converts text bound
  to an integer column, and whether it enforces foreign keys.
\<close>

record engine =
  integer_affinity :: "string \<Rightarrow> sqlval"
  foreign_keys :: bool

text \<open>
  \<^verbatim>\<open>db.session.add(Book(...))\<close> followed by \<^verbatim>\<open>db.session.commit()\<close>: the insert is
  checked against \<^verbatim>\<open>unique=True\<close> of \<^verbatim>\<open>isbn\<close> and, where the engine enforces it, the
  foreign key of \<^verbatim>\<open>author_id\<close>. A violation raises \<^verbatim>\<open>IntegrityError\<close> and the session
  is rolled back.
\<close>

definition add_and_commit_book ::
    "engine \<Rightarrow> string \<Rightarrow> string \<Rightarrow> string \<Rightarrow> string \<Rightarrow> ctx \<Rightarrow> error + ctx" where
  "add_and_commit_book eng i t y a c =
     (let d = session c; aid = integer_affinity eng a
      in if list_ex (\<lambda>b. isbn b = i) (books d) then
           Inl (IntegrityError ''UNIQUE constraint failed: books.isbn'')
         else if foreign_keys eng \<and> \<not> list_ex (\<lambda>x. aid = SqlInt (a_id x)) (authors d) then
           Inl (IntegrityError ''FOREIGN KEY constraint failed'')
         else
           Inr (commit (c\<lparr>session := d\<lparr>books := books d @
             [\<lparr>b_id = next_id (map b_id (books d)), isbn = i, title = t,
               publication_year = Some (integer_affinity eng y), author_id = aid\<rparr>]\<rparr>\<rparr>)))"

text \<open>\<^verbatim>\<open>add_book\<close>: nothing catches the exception of the commit.\<close>

definition add_book :: "engine \<Rightarrow> request \<Rightarrow> response handler" where
  "add_book eng req c =
     (let authors = authors (session c)
      in if method req = POST then
           (let isbn = map_of (form req) ''isbn'';
                title = map_of (form req) ''title'';
                publication_year = map_of (form req) ''publication_year'';
                author_id = map_of (form req) ''author_id''
            in if \<not> truthy isbn \<or> \<not> truthy title \<or> \<not> truthy publication_year \<or> \<not> truthy author_id
               then (Inr (Redirect ''add_book''), flash ''Please fill in all fields.'' ''message'' c)
               else
                 (case add_and_commit_book eng (the isbn) (the title) (the publication_year)
                         (the author_id) c of
                    Inl e \<Rightarrow> (Inl e, c\<lparr>session := database c\<rparr>)
                  | Inr c \<Rightarrow>
                      (Inr (Redirect ''add_book''), flash ''Book successfully added!'' ''message'' c)))
         else (Inr (Add_book_html authors), c))"

text \<open>
  An engine for the examples: whole decimal numbers become integers, any other text
  stays text, and foreign keys are not enforced.
\<close>

definition example_engine :: engine where
  "example_engine =
     \<lparr>integer_affinity = (\<lambda>s. case unsigned s of Some n \<Rightarrow> SqlInt (int n) | None \<Rightarrow> SqlText s),
      foreign_keys = False\<rparr>"

subsection \<open>Example data\<close>

definition ann :: author where
  "ann = \<lparr>a_id = 1, name = ''Ann Lee'', birth_date = Some ''1900-01-01'', date_of_death = None\<rparr>"

definition bob :: author where
  "bob = \<lparr>a_id = 2, name = ''bob Ray'', birth_date = Some ''1950-05-05'', date_of_death = None\<rparr>"

definition zebra :: book where
  "zebra = \<lparr>b_id = 1, isbn = ''111'', title = ''Zebra'', publication_year = Some (SqlInt 1950),
     author_id = SqlInt 1\<rparr>"

definition apple :: book where
  "apple = \<lparr>b_id = 2, isbn = ''222'', title = ''apple'', publication_year = Some (SqlInt 1980),
     author_id = SqlInt 2\<rparr>"

definition mango :: book where
  "mango = \<lparr>b_id = 3, isbn = ''333'', title = ''Mango'', publication_year = None,
     author_id = SqlInt 2\<rparr>"

definition library :: db where
  "library = \<lparr>authors = [ann, bob], books = [zebra, apple, mango]\<rparr>"



text \<open>A request arrives with a fresh session and an empty flash queue.\<close>

definition fresh :: "db \<Rightarrow> ctx" where
  "fresh d = \<lparr>database = d, session = d, commit_log = [], flashes = []\<rparr>"

subsection \<open>Specification of the deletion\<close>

text \<open>The database without the row of a book, and without the author a book references.\<close>

definition without_book :: "book \<Rightarrow> db \<Rightarrow> db" where
  "without_book B d = d\<lparr>books := filter (\<lambda>b. b_id b \<noteq> b_id B) (books d)\<rparr>"

definition without_author_of :: "book \<Rightarrow> db \<Rightarrow> db" where
  "without_author_of B d = d\<lparr>authors := filter (\<lambda>a. SqlInt (a_id a) \<noteq> author_id B) (authors d)\<rparr>"

subsection \<open>Specification of the search\<close>

text \<open>
  The words of the specification: \<open>s\<close> is a substring of \<open>t\<close>, and \<open>s\<close> is a substring
  of \<open>t\<close> without regard to the case of the letters A to Z.
\<close>

fun starts_with :: "string \<Rightarrow> string \<Rightarrow> bool" where
  "starts_with [] t = True"
| "starts_with (p # ps) [] = False"
| "starts_with (p # ps) (c # cs) = (p = c \<and> starts_with ps cs)"

fun substring :: "string \<Rightarrow> string \<Rightarrow> bool" where
  "substring s [] = (s = [])"
| "substring s (c # cs) = (starts_with s (c # cs) \<or> substring s cs)"

definition contains_ci :: "string \<Rightarrow> string \<Rightarrow> bool" where
  "contains_ci s t = substring (map sql_lower s) (map sql_lower t)"

text \<open>
  The search text holds none of the characters the engine's LIKE does not read as
  themselves: the wildcards \<^verbatim>\<open>%\<close> and \<^verbatim>\<open>_\<close>, and NUL.
\<close>

definition literal_text :: "string \<Rightarrow> bool" where
  "literal_text s = list_all (\<lambda>c. c \<noteq> CHR ''%'' \<and> c \<noteq> CHR ''_'' \<and> c \<noteq> CHR 0x00) s"

subsection \<open>Specification of the listing\<close>

text \<open>The books on the page a handler returns; none when it returns no page.\<close>

definition listed :: "(error + response) \<times> ctx \<Rightarrow> book list" where
  "listed out = (case fst out of Inr (Home_html bs q) \<Rightarrow> bs | _ \<Rightarrow> [])"

text \<open>The search text of a request: the \<open>search\<close> argument without the white space around it.\<close>

definition stripped_search :: "request \<Rightarrow> string" where
  "stripped_search req = strip (get_or (args req) ''search'' [])"

text \<open>
  A book references a stored author; the name of the author a book references
  (\<^verbatim>\<open>book.author.name\<close>).
\<close>

definition has_author :: "db \<Rightarrow> book \<Rightarrow> bool" where
  "has_author d b \<longleftrightarrow> Author_query_get (author_id b) d \<noteq> None"

definition author_name_of :: "db \<Rightarrow> book \<Rightarrow> string" where
  "author_name_of d b = (case Author_query_get (author_id b) d of None \<Rightarrow> [] | Some a \<Rightarrow> name a)"

text \<open>
  A book matches the search text \<open>s\<close>: it references a stored author, and its title or
  the name of that author contains \<open>s\<close>, letter case aside, each read up to its first
  NUL character if it has one.
\<close>

definition matches :: "db \<Rightarrow> string \<Rightarrow> book \<Rightarrow> bool" where
  "matches d s b \<longleftrightarrow>
     has_author d b \<and>
     (contains_ci s (until_nul (title b)) \<or> contains_ci s (until_nul (author_name_of d b)))"

section \<open>Deleting books\<close>

lemma py_int_Nil: "py_int [] = Inl ValueError"
  by (simp add: py_int_def unsigned_def)

lemma find_primary_key:
  "distinct (map k xs) \<Longrightarrow> x \<in> set xs \<Longrightarrow> find (\<lambda>y. k y = k x) xs = Some x"
  by (induction xs) (auto simp: image_iff)


lemma Book_query_get_present:
  assumes "primary_keys_ok d" "B \<in> set (books d)"
  shows "Book_query_get (b_id B) d = Inr (Some B)"
  using assms
  by (auto simp: Book_query_get_def primary_keys_ok_def list_all_iff find_primary_key)


lemma delete_author_of:
  "Author_query_get (author_id B) d = Some a \<Longrightarrow>
     filter (\<lambda>x. a_id x \<noteq> a_id a) (authors d) = filter (\<lambda>a. SqlInt (a_id a) \<noteq> author_id B) (authors d)"
  by (cases "author_id B") (auto simp: Author_query_get_def dest!: find_Some_iff[THEN iffD1])

lemma no_author_of:
  "Author_query_get (author_id B) d = None \<Longrightarrow>
     filter (\<lambda>a. SqlInt (a_id a) \<noteq> author_id B) (authors d) = authors d"
  by (cases "author_id B") (auto simp: Author_query_get_def find_None_iff filter_id_conv)

lemma Author_query_get_books [simp]:
  "Author_query_get i (d\<lparr>books := bs\<rparr>) = Author_query_get i d"
  by (simp add: Author_query_get_def split: sqlval.splits)

lemma home_delete_found_session:
  "session (home_delete_found B c) =
     (if count_books_of (author_id B) (without_book B (session c)) = 0
      then without_author_of B (without_book B (session c))
      else without_book B (session c))"
proof (cases "Author_query_get (author_id B) (session c)")
  case None
  from no_author_of [OF this] None show ?thesis
    by (simp add: home_delete_found_def Let_def flash_def commit_def session_delete_book_def
        without_book_def without_author_of_def)
next
  case (Some a)
  from delete_author_of [OF this] Some show ?thesis
    by (simp add: home_delete_found_def Let_def flash_def commit_def session_delete_book_def
        session_delete_author_def without_book_def without_author_of_def)
qed

lemma home_delete_found_database:
  "database (home_delete_found B c) = session (home_delete_found B c)"
  by (simp add: home_delete_found_def Let_def flash_def commit_def session_delete_book_def
      session_delete_author_def split: option.splits)

lemma home_delete_found_flashes:
  "flashes (home_delete_found B c) = flashes c @ [(''success'', ''Book successfully deleted!'')]"
  by (simp add: home_delete_found_def Let_def flash_def commit_def session_delete_book_def
      session_delete_author_def split: option.splits)

lemma home_delete_found_commit_log:
  "commit_log (home_delete_found B c) = commit_log c @
     (if count_books_of (author_id B) (without_book B (session c)) = 0 \<and>
         Author_query_get (author_id B) (session c) \<noteq> None
      then [without_book B (session c), without_author_of B (without_book B (session c))]
      else [without_book B (session c)])"
proof (cases "Author_query_get (author_id B) (session c)")
  case None
  then show ?thesis
    by (simp add: home_delete_found_def Let_def flash_def commit_def session_delete_book_def
        without_book_def)
next
  case (Some a)
  from delete_author_of [OF this] Some show ?thesis
    by (simp add: home_delete_found_def Let_def flash_def commit_def session_delete_book_def
        session_delete_author_def without_book_def without_author_of_def)
qed

lemma home_post_found:
  assumes "method req = POST"
    and "map_of (form req) ''delete_book_id'' = Some s"
    and "py_int s = Inr n"
    and "Book_query_get n (session c) = Inr (Some B)"
  shows "home req c = (Inr (Redirect ''home''), home_delete_found B c)"
proof -
  from assms(3) have "s \<noteq> []" by (auto simp: py_int_Nil)
  with assms show ?thesis by (simp add: home_def Let_def)
qed


lemma count_without_book:
  assumes "distinct (map b_id bs)" "B \<in> set bs"
  shows "length (filter (\<lambda>b. author_id b = author_id B) bs) =
         Suc (length (filter (\<lambda>b. author_id b = author_id B) (filter (\<lambda>b. b_id b \<noteq> b_id B) bs)))"
  using assms
proof (induction bs)
  case Nil
  then show ?case by simp
next
  case (Cons x xs)
  show ?case
  proof (cases "x = B")
    case True
    with Cons.prems have "filter (\<lambda>b. b_id b \<noteq> b_id B) xs = xs"
      by (auto simp: filter_id_conv image_iff)
    with True show ?thesis by simp
  next
    case False
    with Cons.prems have "B \<in> set xs" "b_id x \<noteq> b_id B" "distinct (map b_id xs)"
      by (auto simp: image_iff)
    with Cons.IH show ?thesis by simp
  qed
qed

lemma count_books_of_without:
  assumes "primary_keys_ok d" "B \<in> set (books d)"
  shows "count_books_of (author_id B) d = Suc (count_books_of (author_id B) (without_book B d))"
  using assms count_without_book [of "books d" B]
  by (simp add: count_books_of_def without_book_def primary_keys_ok_def)

text \<open>
  C1. For every book \<open>B\<close> in storage, a POST to the home page with \<open>B\<close>'s id removes
  \<open>B\<close>; afterwards the author \<open>B\<close> referenced is removed exactly when no remaining book
  references that author: an author with exactly one book (\<open>B\<close>) goes with it, an
  author with two or more books stays as it was. The change is committed and success
  is flashed.
\<close>

theorem home_delete_book_cascade:
  assumes "method req = POST"
    and "map_of (form req) ''delete_book_id'' = Some s"
    and "py_int s = Inr (b_id B)"
    and "primary_keys_ok (session c)"
    and "B \<in> set (books (session c))"
  shows "fst (home req c) = Inr (Redirect ''home'') \<and>
     books (session (snd (home req c))) = filter (\<lambda>b. b_id b \<noteq> b_id B) (books (session c)) \<and>
     B \<notin> set (books (session (snd (home req c)))) \<and>
     authors (session (snd (home req c))) =
       (if list_ex (\<lambda>b. author_id b = author_id B) (books (session (snd (home req c))))
        then authors (session c)
        else filter (\<lambda>a. SqlInt (a_id a) \<noteq> author_id B) (authors (session c))) \<and>
     (count_books_of (author_id B) (session c) = 1 \<longrightarrow>
        authors (session (snd (home req c))) =
          filter (\<lambda>a. SqlInt (a_id a) \<noteq> author_id B) (authors (session c))) \<and>
     (2 \<le> count_books_of (author_id B) (session c) \<longrightarrow>
        authors (session (snd (home req c))) = authors (session c)) \<and>
     database (snd (home req c)) = session (snd (home req c)) \<and>
     flashes (snd (home req c)) = flashes c @ [(''success'', ''Book successfully deleted!'')]"
proof -
  let ?d = "without_book B (session c)"
  from assms have home: "home req c = (Inr (Redirect ''home''), home_delete_found B c)"
    by (simp add: home_post_found Book_query_get_present)
  have count: "count_books_of (author_id B) (session c) = Suc (count_books_of (author_id B) ?d)"
    using assms(4,5) by (rule count_books_of_without)
  have ex: "list_ex (\<lambda>b. author_id b = author_id B) (books ?d) \<longleftrightarrow>
      count_books_of (author_id B) ?d \<noteq> 0"
    by (simp add: count_books_of_def list_ex_iff filter_empty_conv)
  have gone: "B \<notin> set (books ?d)"
    by (simp add: without_book_def)
  show ?thesis
    using count ex gone
    by (simp add: home home_delete_found_session home_delete_found_database
        home_delete_found_flashes without_book_def without_author_of_def)
qed

theorem home_delete_book_cascade_witness:
  "py_int ''1'' = Inr (b_id zebra) \<and> py_int ''2'' = Inr (b_id apple) \<and>
   primary_keys_ok library \<and> zebra \<in> set (books library) \<and> apple \<in> set (books library) \<and>
   count_books_of (author_id zebra) library = 1 \<and> count_books_of (author_id apple) library = 2 \<and>
   session (snd (home \<lparr>method = POST, args = [], form = [(''delete_book_id'', ''1'')]\<rparr>
     (fresh library))) = \<lparr>authors = [bob], books = [apple, mango]\<rparr> \<and>
   session (snd (home \<lparr>method = POST, args = [], form = [(''delete_book_id'', ''2'')]\<rparr>
     (fresh library))) = \<lparr>authors = [ann, bob], books = [zebra, mango]\<rparr>"
proof -
  let ?r1 = "\<lparr>method = POST, args = [], form = [(''delete_book_id'', ''1'')]\<rparr>"
  let ?r2 = "\<lparr>method = POST, args = [], form = [(''delete_book_id'', ''2'')]\<rparr>"
  have p1: "py_int ''1'' = Inr (b_id zebra)" and p2: "py_int ''2'' = Inr (b_id apple)"
    by (simp_all add: py_int_def unsigned_def digit_val_def int_space_def zebra_def apple_def)
  have wf: "primary_keys_ok (session (fresh library))"
    by (simp add: primary_keys_ok_def fresh_def library_def int64_def
        ann_def bob_def zebra_def apple_def mango_def)
  have m1: "zebra \<in> set (books (session (fresh library)))"
    and m2: "apple \<in> set (books (session (fresh library)))"
    by (simp_all add: fresh_def library_def)
  have n1: "count_books_of (author_id zebra) library = 1"
    and n2: "count_books_of (author_id apple) library = 2"
    by (simp_all add: count_books_of_def library_def zebra_def apple_def mango_def)
  have f1: "method ?r1 = POST" "map_of (form ?r1) ''delete_book_id'' = Some ''1''"
    and f2: "method ?r2 = POST" "map_of (form ?r2) ''delete_book_id'' = Some ''2''"
    by simp_all
  note t1 = home_delete_book_cascade [OF f1 p1 wf m1]
  note t2 = home_delete_book_cascade [OF f2 p2 wf m2]
  have s1: "session (snd (home ?r1 (fresh library))) = \<lparr>authors = [bob], books = [apple, mango]\<rparr>"
    using t1 n1
    by (simp add: fresh_def library_def ann_def bob_def zebra_def apple_def mango_def)
  have s2: "session (snd (home ?r2 (fresh library))) = \<lparr>authors = [ann, bob], books = [zebra, mango]\<rparr>"
    using t2 n2
    by (simp add: fresh_def library_def ann_def bob_def zebra_def apple_def mango_def)
  from p1 p2 wf m1 m2 n1 n2 s1 s2 show ?thesis
    by (simp add: fresh_def)
qed

lemma delete_book_found_raises:
  assumes "Book_query_get (int book_id) (session c) = Inr (Some B)"
  shows "delete_book book_id c = (Inl (NameError ''session''), c)"
  using assms by (simp add: delete_book_def global_name_def app_globals_def)

text \<open>
  C2. The claim: a POST to \<^verbatim>\<open>/book/<id>/delete\<close> for a stored book deletes it, removes
  an author left without books, commits and reports success. The code: for every stored
  book the handler leaves with \<^verbatim>\<open>NameError\<close>, nothing deleted, committed or flashed.
\<close>

theorem delete_book_stored_book_name_error:
  "delete_book 1 (fresh library) = (Inl (NameError ''session''), fresh library)"
proof -
  have "Book_query_get (int 1) (session (fresh library)) = Inr (Some zebra)"
    by (simp add: Book_query_get_def int64_def fresh_def library_def zebra_def)
  then show ?thesis by (rule delete_book_found_raises)
qed

text \<open>
  C4, as stated: deleting a book whose author is left without books is one atomic
  commit. Deleting the only book of the first author commits twice, and the first
  committed state has the book gone and the author still there.
\<close>

theorem home_delete_atomic_counterexample:
  "commit_log (snd (home \<lparr>method = POST, args = [], form = [(''delete_book_id'', ''1'')]\<rparr>
     (fresh library))) =
   [\<lparr>authors = [ann, bob], books = [apple, mango]\<rparr>, \<lparr>authors = [bob], books = [apple, mango]\<rparr>]"
proof -
  have "py_int ''1'' = Inr 1"
    by (simp add: py_int_def unsigned_def digit_val_def int_space_def)
  moreover have "Book_query_get 1 (session (fresh library)) = Inr (Some zebra)"
    by (simp add: Book_query_get_def int64_def fresh_def library_def zebra_def)
  ultimately have "home \<lparr>method = POST, args = [], form = [(''delete_book_id'', ''1'')]\<rparr>
      (fresh library) = (Inr (Redirect ''home''), home_delete_found zebra (fresh library))"
    by (intro home_post_found) simp_all
  then show ?thesis
    by (simp add: home_delete_found_commit_log without_book_def without_author_of_def
        count_books_of_def Author_query_get_def fresh_def library_def
        ann_def bob_def zebra_def apple_def mango_def)
qed

text \<open>
  C4, amended: when the book \<open>B\<close> deleted through the home page is the only book of an
  existing author \<open>A\<close>, the handler commits twice: first the state without \<open>B\<close>, in
  which \<open>A\<close> is still stored and no book references \<open>A\<close>, then the state without \<open>B\<close>
  and without \<open>A\<close>.
\<close>

theorem home_delete_two_commits:
  assumes "method req = POST"
    and "map_of (form req) ''delete_book_id'' = Some s"
    and "py_int s = Inr (b_id B)"
    and "primary_keys_ok (session c)"
    and "B \<in> set (books (session c))"
    and "count_books_of (author_id B) (session c) = 1"
    and "Author_query_get (author_id B) (session c) = Some A"
  shows "commit_log (snd (home req c)) = commit_log c @
       [without_book B (session c), without_author_of B (without_book B (session c))] \<and>
     B \<notin> set (books (without_book B (session c))) \<and>
     A \<in> set (authors (without_book B (session c))) \<and>
     count_books_of (author_id B) (without_book B (session c)) = 0 \<and>
     A \<notin> set (authors (without_author_of B (without_book B (session c))))"
proof -
  from assms have home: "home req c = (Inr (Redirect ''home''), home_delete_found B c)"
    by (simp add: home_post_found Book_query_get_present)
  from assms(4,5,6) have zero: "count_books_of (author_id B) (without_book B (session c)) = 0"
    by (simp add: count_books_of_without)
  from assms(7) have A: "A \<in> set (authors (session c))" "author_id B = SqlInt (a_id A)"
    by (auto simp: Author_query_get_def find_Some_iff split: sqlval.splits)
  from zero A assms(7) show ?thesis
    by (simp add: home home_delete_found_commit_log without_book_def without_author_of_def)
qed

theorem home_delete_two_commits_witness:
  "py_int ''1'' = Inr (b_id zebra) \<and> primary_keys_ok library \<and> zebra \<in> set (books library) \<and>
   count_books_of (author_id zebra) library = 1 \<and>
   Author_query_get (author_id zebra) library = Some ann \<and>
   commit_log (snd (home \<lparr>method = POST, args = [], form = [(''delete_book_id'', ''1'')]\<rparr>
     (fresh library))) =
     [without_book zebra library, without_author_of zebra (without_book zebra library)] \<and>
   ann \<in> set (authors (without_book zebra library)) \<and>
   count_books_of (SqlInt 1) (without_book zebra library) = 0"
proof -
  let ?r = "\<lparr>method = POST, args = [], form = [(''delete_book_id'', ''1'')]\<rparr>"
  have p: "py_int ''1'' = Inr (b_id zebra)"
    by (simp add: py_int_def unsigned_def digit_val_def int_space_def zebra_def)
  have wf: "primary_keys_ok (session (fresh library))"
    by (simp add: primary_keys_ok_def fresh_def library_def int64_def
        ann_def bob_def zebra_def apple_def mango_def)
  have m: "zebra \<in> set (books (session (fresh library)))"
    by (simp add: fresh_def library_def)
  have n: "count_books_of (author_id zebra) (session (fresh library)) = 1"
    by (simp add: count_books_of_def fresh_def library_def zebra_def apple_def mango_def)
  have a: "Author_query_get (author_id zebra) (session (fresh library)) = Some ann"
    by (simp add: Author_query_get_def fresh_def library_def zebra_def ann_def)
  have f: "method ?r = POST" "map_of (form ?r) ''delete_book_id'' = Some ''1''"
    by simp_all
  have z: "author_id zebra = SqlInt 1"
    by (simp add: zebra_def)
  from home_delete_two_commits [OF f p wf m n a] p wf m n a z show ?thesis
    by (simp add: fresh_def)
qed




section \<open>Creating authors and books\<close>

lemma add_author_rejected:
  assumes "method req = POST"
    and "\<not> truthy (map_of (form req) ''name'') \<or> \<not> truthy (map_of (form req) ''birthdate'')"
  shows "add_author req c =
     (Inr (Redirect ''add_author''),
      c\<lparr>flashes := flashes c @ [(''message'', ''Please insert all required dates.''),
                                (''success'', ''Author successfully added!'')]\<rparr>)"
  using assms by (auto simp: add_author_def Let_def flash_def)

lemma add_author_accepted:
  assumes "method req = POST"
    and "truthy (map_of (form req) ''name'')" and "truthy (map_of (form req) ''birthdate'')"
  shows "add_author req c =
     (Inr (Redirect ''add_author''),
      flash ''Author successfully added!'' ''success''
        (flash ''Author successfully added!'' ''message''
          (commit (session_add_author (the (map_of (form req) ''name''))
             (map_of (form req) ''birthdate'') (map_of (form req) ''date_of_death'') c))))"
  using assms by (simp add: add_author_def Let_def)

lemma fold_max_ge: "\<forall>y \<in> set (x # xs). y \<le> fold max xs (x::int)"
proof (induction xs arbitrary: x)
  case Nil
  show ?case by simp
next
  case (Cons a xs)
  from Cons.IH [of "max a x"]
  have "max a x \<le> fold max xs (max a x)" and "\<forall>y \<in> set xs. y \<le> fold max xs (max a x)"
    by simp_all
  then show ?case by simp
qed

lemma next_id_fresh: "next_id ids \<notin> set ids"
proof (cases ids)
  case Nil
  then show ?thesis by simp
next
  case (Cons x xs)
  from fold_max_ge [of x xs] have "\<forall>y \<in> set (x # xs). y < fold max xs x + 1"
    by auto
  with Cons show ?thesis by (auto simp: next_id_def)
qed

text \<open>
  C8. A POST to \<^verbatim>\<open>/add_author\<close> whose \<open>name\<close> or \<open>birthdate\<close> is missing or empty
  flashes the validation failure and writes nothing: session, database and commit log
  are as before, so no author row is created and the row count is unchanged. When both
  are non-empty, one author row with a fresh id is appended and committed, and success
  is flashed.
\<close>

theorem add_author_validation:
  assumes "method req = POST"
  shows "(\<not> truthy (map_of (form req) ''name'') \<or> \<not> truthy (map_of (form req) ''birthdate'') \<longrightarrow>
       (''message'', ''Please insert all required dates.'') \<in> set (flashes (snd (add_author req c))) \<and>
       session (snd (add_author req c)) = session c \<and>
       database (snd (add_author req c)) = database c \<and>
       commit_log (snd (add_author req c)) = commit_log c \<and>
       length (authors (database (snd (add_author req c)))) = length (authors (database c))) \<and>
     (truthy (map_of (form req) ''name'') \<and> truthy (map_of (form req) ''birthdate'') \<longrightarrow>
       authors (session (snd (add_author req c))) = authors (session c) @
         [\<lparr>a_id = next_id (map a_id (authors (session c))),
           name = the (map_of (form req) ''name''),
           birth_date = map_of (form req) ''birthdate'',
           date_of_death = map_of (form req) ''date_of_death''\<rparr>] \<and>
       next_id (map a_id (authors (session c))) \<notin> a_id ` set (authors (session c)) \<and>
       length (authors (session (snd (add_author req c)))) = length (authors (session c)) + 1 \<and>
       books (session (snd (add_author req c))) = books (session c) \<and>
       database (snd (add_author req c)) = session (snd (add_author req c)) \<and>
       (''message'', ''Author successfully added!'') \<in> set (flashes (snd (add_author req c))))"
proof (intro conjI impI)
  assume bad: "\<not> truthy (map_of (form req) ''name'') \<or> \<not> truthy (map_of (form req) ''birthdate'')"
  note r = add_author_rejected [OF assms bad, of c]
  show "(''message'', ''Please insert all required dates.'') \<in> set (flashes (snd (add_author req c)))"
    and "session (snd (add_author req c)) = session c"
    and "database (snd (add_author req c)) = database c"
    and "commit_log (snd (add_author req c)) = commit_log c"
    and "length (authors (database (snd (add_author req c)))) = length (authors (database c))"
    by (simp_all add: r)
next
  assume good: "truthy (map_of (form req) ''name'') \<and> truthy (map_of (form req) ''birthdate'')"
  then have a: "add_author req c =
     (Inr (Redirect ''add_author''),
      flash ''Author successfully added!'' ''success''
        (flash ''Author successfully added!'' ''message''
          (commit (session_add_author (the (map_of (form req) ''name''))
             (map_of (form req) ''birthdate'') (map_of (form req) ''date_of_death'') c))))"
    using assms by (simp add: add_author_accepted)
  show "authors (session (snd (add_author req c))) = authors (session c) @
         [\<lparr>a_id = next_id (map a_id (authors (session c))),
           name = the (map_of (form req) ''name''),
           birth_date = map_of (form req) ''birthdate'',
           date_of_death = map_of (form req) ''date_of_death''\<rparr>]"
    and "length (authors (session (snd (add_author req c)))) = length (authors (session c)) + 1"
    and "books (session (snd (add_author req c))) = books (session c)"
    and "database (snd (add_author req c)) = session (snd (add_author req c))"
    and "(''message'', ''Author successfully added!'') \<in> set (flashes (snd (add_author req c)))"
    by (simp_all add: a flash_def commit_def session_add_author_def)
  show "next_id (map a_id (authors (session c))) \<notin> a_id ` set (authors (session c))"
    using next_id_fresh [of "map a_id (authors (session c))"] by simp
qed

theorem add_author_validation_witness:
  "\<not> truthy (map_of [(''name'', ''Cy Orr'')] ''birthdate'') \<and>
   truthy (map_of [(''name'', ''Cy Orr''), (''birthdate'', ''2000-02-02'')] ''name'') \<and>
   truthy (map_of [(''name'', ''Cy Orr''), (''birthdate'', ''2000-02-02'')] ''birthdate'') \<and>
   session (snd (add_author \<lparr>method = POST, args = [], form = [(''name'', ''Cy Orr'')]\<rparr>
     (fresh library))) = library \<and>
   authors (session (snd (add_author \<lparr>method = POST, args = [],
     form = [(''name'', ''Cy Orr''), (''birthdate'', ''2000-02-02'')]\<rparr> (fresh library)))) =
     [ann, bob, \<lparr>a_id = 3, name = ''Cy Orr'', birth_date = Some ''2000-02-02'',
                 date_of_death = None\<rparr>]"
proof -
  let ?bad = "\<lparr>method = POST, args = [], form = [(''name'', ''Cy Orr'')]\<rparr>"
  let ?good = "\<lparr>method = POST, args = [],
     form = [(''name'', ''Cy Orr''), (''birthdate'', ''2000-02-02'')]\<rparr>"
  have h1: "\<not> truthy (map_of (form ?bad) ''birthdate'')"
    and h2: "truthy (map_of (form ?good) ''name'')"
    and h3: "truthy (map_of (form ?good) ''birthdate'')"
    by (simp_all add: truthy_def)
  have m: "method ?bad = POST" "method ?good = POST"
    by simp_all
  have n: "next_id (map a_id (authors library)) = 3"
    by (simp add: next_id_def library_def ann_def bob_def)
  from add_author_validation [OF m(1), of "fresh library"] h1
  have bad: "session (snd (add_author ?bad (fresh library))) = library"
    by (simp add: fresh_def)
  from add_author_validation [OF m(2), of "fresh library"] h2 h3 n
  have good: "authors (session (snd (add_author ?good (fresh library)))) =
     [ann, bob, \<lparr>a_id = 3, name = ''Cy Orr'', birth_date = Some ''2000-02-02'',
                 date_of_death = None\<rparr>]"
    by (simp add: fresh_def library_def)
  from h1 h2 h3 bad good show ?thesis by simp
qed

text \<open>
  C9. Every POST to \<^verbatim>\<open>/add_author\<close> ends by flashing \<^verbatim>\<open>Author successfully added!\<close>
  in the category \<^verbatim>\<open>success\<close>, also when validation fails and nothing is written: a
  rejected submission gets the validation message and then the success message.
\<close>

theorem add_author_flashes_success_always:
  assumes "method req = POST"
  shows "flashes (snd (add_author req c)) \<noteq> [] \<and>
     last (flashes (snd (add_author req c))) = (''success'', ''Author successfully added!'') \<and>
     (\<not> truthy (map_of (form req) ''name'') \<or> \<not> truthy (map_of (form req) ''birthdate'') \<longrightarrow>
        flashes (snd (add_author req c)) = flashes c @
          [(''message'', ''Please insert all required dates.''),
           (''success'', ''Author successfully added!'')] \<and>
        session (snd (add_author req c)) = session c \<and>
        database (snd (add_author req c)) = database c)"
proof (cases "\<not> truthy (map_of (form req) ''name'') \<or> \<not> truthy (map_of (form req) ''birthdate'')")
  case True
  from add_author_rejected [OF assms True, of c] True show ?thesis by simp
next
  case False
  with assms show ?thesis
    by (simp add: add_author_accepted flash_def)
qed

theorem add_author_flashes_success_always_witness:
  "\<not> truthy (map_of [(''name'', ''Cy Orr''), (''birthdate'', [])] ''birthdate'') \<and>
   add_author \<lparr>method = POST, args = [], form = [(''name'', ''Cy Orr''), (''birthdate'', [])]\<rparr>
     (fresh library) =
   (Inr (Redirect ''add_author''),
    \<lparr>database = library, session = library, commit_log = [],
      flashes = [(''message'', ''Please insert all required dates.''),
                 (''success'', ''Author successfully added!'')]\<rparr>)"
proof -
  let ?r = "\<lparr>method = POST, args = [], form = [(''name'', ''Cy Orr''), (''birthdate'', [])]\<rparr>"
  have h: "\<not> truthy (map_of (form ?r) ''birthdate'')"
    by (simp add: truthy_def)
  have m: "method ?r = POST"
    by simp
  have "fst (add_author ?r (fresh library)) = Inr (Redirect ''add_author'')"
    by (simp add: add_author_def Let_def)
  moreover have "commit_log (snd (add_author ?r (fresh library))) = []"
    by (simp add: add_author_def Let_def truthy_def flash_def fresh_def)
  moreover note add_author_flashes_success_always [OF m, of "fresh library"] h
  ultimately have "add_author ?r (fresh library) =
     (Inr (Redirect ''add_author''),
      \<lparr>database = library, session = library, commit_log = [],
        flashes = [(''message'', ''Please insert all required dates.''),
                   (''success'', ''Author successfully added!'')]\<rparr>)"
    by (cases "add_author ?r (fresh library)") (auto simp: fresh_def)
  with h show ?thesis by simp
qed

lemma add_book_validated:
  assumes "method req = POST"
    and "map_of (form req) ''isbn'' = Some i" and "i \<noteq> []"
    and "map_of (form req) ''title'' = Some t" and "t \<noteq> []"
    and "map_of (form req) ''publication_year'' = Some y" and "y \<noteq> []"
    and "map_of (form req) ''author_id'' = Some a" and "a \<noteq> []"
  shows "add_book eng req c =
     (case add_and_commit_book eng i t y a c of
        Inl e \<Rightarrow> (Inl e, c\<lparr>session := database c\<rparr>)
      | Inr c' \<Rightarrow> (Inr (Redirect ''add_book''), flash ''Book successfully added!'' ''message'' c'))"
  using assms by (simp add: add_book_def Let_def truthy_def)

text \<open>
  Where the engine does not enforce foreign keys, a book whose \<open>author_id\<close> references
  no author is stored.
\<close>

lemma add_book_dangling_author_stored:
  "books (database (snd (add_book example_engine
     \<lparr>method = POST, args = [], form = [(''isbn'', ''444''), (''title'', ''Kiwi''),
        (''publication_year'', ''1999''), (''author_id'', ''9'')]\<rparr> (fresh library)))) =
   [zebra, apple, mango,
    \<lparr>b_id = 4, isbn = ''444'', title = ''Kiwi'', publication_year = Some (SqlInt 1999),
      author_id = SqlInt 9\<rparr>]"
  by (simp add: add_book_def Let_def truthy_def add_and_commit_book_def example_engine_def
      unsigned_def digit_val_def next_id_def commit_def flash_def fresh_def library_def
      ann_def bob_def zebra_def apple_def mango_def)

text \<open>
  C3, as stated: a second book with a stored isbn is rejected and the condition reaches
  the user as a handled message. With isbn 111 stored, a POST to \<^verbatim>\<open>/add_book\<close> with
  isbn 111 leaves the handler with \<^verbatim>\<open>IntegrityError\<close>; nothing is flashed.
\<close>

theorem add_book_duplicate_isbn_counterexample:
  "add_book example_engine
     \<lparr>method = POST, args = [], form = [(''isbn'', ''111''), (''title'', ''Kiwi''),
        (''publication_year'', ''1999''), (''author_id'', ''1'')]\<rparr> (fresh library) =
   (Inl (IntegrityError ''UNIQUE constraint failed: books.isbn''),
    \<lparr>database = library, session = library, commit_log = [], flashes = []\<rparr>)"
  by (simp add: add_book_def Let_def truthy_def add_and_commit_book_def example_engine_def
      fresh_def library_def zebra_def apple_def mango_def)

text \<open>
  C3, amended: when some book has isbn \<open>X\<close>, a POST to \<^verbatim>\<open>/add_book\<close> with all fields
  filled in and isbn \<open>X\<close> is rejected by the storage layer, and so is one whose
  \<open>author_id\<close> references no author when the engine enforces foreign keys; the tables
  are unchanged, nothing is committed, nothing is flashed, and the \<^verbatim>\<open>IntegrityError\<close>
  leaves the handler uncaught.
\<close>

theorem add_book_constraint_violation_uncaught:
  assumes "method req = POST"
    and "map_of (form req) ''isbn'' = Some i" and "i \<noteq> []"
    and "map_of (form req) ''title'' = Some t" and "t \<noteq> []"
    and "map_of (form req) ''publication_year'' = Some y" and "y \<noteq> []"
    and "map_of (form req) ''author_id'' = Some a" and "a \<noteq> []"
    and "session c = database c"
    and "list_ex (\<lambda>b. isbn b = i) (books (database c)) \<or>
         foreign_keys eng \<and>
         \<not> list_ex (\<lambda>x. integer_affinity eng a = SqlInt (a_id x)) (authors (database c))"
  shows "add_book eng req c =
     (Inl (IntegrityError
        (if list_ex (\<lambda>b. isbn b = i) (books (database c))
         then ''UNIQUE constraint failed: books.isbn'' else ''FOREIGN KEY constraint failed'')),
      c)"
proof -
  have "c\<lparr>session := database c\<rparr> = c"
    using assms(10) by (cases c) simp
  moreover have "add_and_commit_book eng i t y a c =
     Inl (IntegrityError
        (if list_ex (\<lambda>b. isbn b = i) (books (database c))
         then ''UNIQUE constraint failed: books.isbn'' else ''FOREIGN KEY constraint failed''))"
    using assms(10,11) by (auto simp: add_and_commit_book_def Let_def)
  ultimately show ?thesis
    using assms(1-9) by (simp add: add_book_validated)
qed

theorem add_book_constraint_violation_uncaught_witness:
  "list_ex (\<lambda>b. isbn b = ''111'') (books library) \<and>
   \<not> list_ex (\<lambda>b. isbn b = ''444'') (books library) \<and>
   \<not> list_ex (\<lambda>x. integer_affinity example_engine ''9'' = SqlInt (a_id x)) (authors library) \<and>
   add_book example_engine
     \<lparr>method = POST, args = [], form = [(''isbn'', ''111''), (''title'', ''Kiwi''),
        (''publication_year'', ''1999''), (''author_id'', ''1'')]\<rparr> (fresh library) =
     (Inl (IntegrityError ''UNIQUE constraint failed: books.isbn''), fresh library) \<and>
   add_book (example_engine\<lparr>foreign_keys := True\<rparr>)
     \<lparr>method = POST, args = [], form = [(''isbn'', ''444''), (''title'', ''Kiwi''),
        (''publication_year'', ''1999''), (''author_id'', ''9'')]\<rparr> (fresh library) =
     (Inl (IntegrityError ''FOREIGN KEY constraint failed''), fresh library)"
proof -
  let ?r1 = "\<lparr>method = POST, args = [], form = [(''isbn'', ''111''), (''title'', ''Kiwi''),
        (''publication_year'', ''1999''), (''author_id'', ''1'')]\<rparr>"
  let ?r2 = "\<lparr>method = POST, args = [], form = [(''isbn'', ''444''), (''title'', ''Kiwi''),
        (''publication_year'', ''1999''), (''author_id'', ''9'')]\<rparr>"
  let ?fk = "example_engine\<lparr>foreign_keys := True\<rparr>"
  have u1: "list_ex (\<lambda>b. isbn b = ''111'') (books library)"
    and u2: "\<not> list_ex (\<lambda>b. isbn b = ''444'') (books library)"
    by (simp_all add: library_def zebra_def apple_def mango_def)
  have k: "\<not> list_ex (\<lambda>x. integer_affinity example_engine ''9'' = SqlInt (a_id x)) (authors library)"
    by (simp add: example_engine_def unsigned_def digit_val_def library_def ann_def bob_def)
  have s: "session (fresh library) = database (fresh library)"
    by (simp add: fresh_def)
  have v1: "list_ex (\<lambda>b. isbn b = ''111'') (books (database (fresh library))) \<or>
      foreign_keys example_engine \<and>
      \<not> list_ex (\<lambda>x. integer_affinity example_engine ''1'' = SqlInt (a_id x))
          (authors (database (fresh library)))"
    using u1 by (simp add: fresh_def)
  have v2: "list_ex (\<lambda>b. isbn b = ''444'') (books (database (fresh library))) \<or>
      foreign_keys ?fk \<and>
      \<not> list_ex (\<lambda>x. integer_affinity ?fk ''9'' = SqlInt (a_id x))
          (authors (database (fresh library)))"
    using k by (simp add: fresh_def)
  have t1: "add_book example_engine ?r1 (fresh library) =
      (Inl (IntegrityError ''UNIQUE constraint failed: books.isbn''), fresh library)"
    using add_book_constraint_violation_uncaught
      [of ?r1 "''111''" "''Kiwi''" "''1999''" "''1''" "fresh library" example_engine, OF _ _ _ _ _ _ _ _ _ s v1]
      u1
    by (simp add: fresh_def)
  have t2: "add_book ?fk ?r2 (fresh library) =
      (Inl (IntegrityError ''FOREIGN KEY constraint failed''), fresh library)"
    using add_book_constraint_violation_uncaught
      [of ?r2 "''444''" "''Kiwi''" "''1999''" "''9''" "fresh library" ?fk, OF _ _ _ _ _ _ _ _ _ s v2]
      u2
    by (simp add: fresh_def)
  from u1 u2 k t1 t2 show ?thesis by simp
qed

section \<open>Listing, search and order\<close>

lemma starts_with_iff: "starts_with s t \<longleftrightarrow> (\<exists>v. t = s @ v)"
  by (induction s t rule: starts_with.induct) auto

lemma substring_iff: "substring s t \<longleftrightarrow> (\<exists>u v. t = u @ s @ v)"
proof (induction t)
  case Nil
  show ?case by auto
next
  case (Cons c cs)
  show ?case
  proof
    assume "substring s (c # cs)"
    then consider "starts_with s (c # cs)" | "substring s cs" by auto
    then show "\<exists>u v. c # cs = u @ s @ v"
    proof cases
      case 1
      then obtain v where "c # cs = s @ v" by (auto simp: starts_with_iff)
      then have "c # cs = [] @ s @ v" by simp
      then show ?thesis by blast
    next
      case 2
      with Cons.IH obtain u v where "cs = u @ s @ v" by auto
      then have "c # cs = (c # u) @ s @ v" by simp
      then show ?thesis by blast
    qed
  next
    assume "\<exists>u v. c # cs = u @ s @ v"
    then obtain u v where uv: "c # cs = u @ s @ v" by auto
    show "substring s (c # cs)"
    proof (cases u)
      case Nil
      with uv have "starts_with s (c # cs)"
        unfolding starts_with_iff by auto
      then show ?thesis by simp
    next
      case (Cons a u')
      with uv have "cs = u' @ s @ v" by simp
      with Cons.IH show ?thesis by auto
    qed
  qed
qed

lemma sql_lower_idem: "sql_lower (sql_lower c) = sql_lower c"
  by (simp add: sql_lower_def)

lemma sql_lower_percent: "sql_lower c = CHR ''%'' \<longleftrightarrow> c = CHR ''%''"
  by (simp add: sql_lower_def)

lemma sql_lower_underscore: "sql_lower c = CHR ''_'' \<longleftrightarrow> c = CHR ''_''"
  by (simp add: sql_lower_def)

lemma sql_lower_nul: "sql_lower c = CHR 0x00 \<longleftrightarrow> c = CHR 0x00"
  by (simp add: sql_lower_def)

lemma patternCompare_percent: "patternCompare ''%'' t"
  by (induction t) auto

lemma patternCompare_prefix:
  assumes "literal_text ps"
  shows "patternCompare (ps @ ''%'') t \<longleftrightarrow> starts_with (map sql_lower ps) (map sql_lower t)"
  using assms
proof (induction ps arbitrary: t)
  case Nil
  show ?case by (simp add: patternCompare_percent)
next
  case (Cons p ps)
  then have p: "p \<noteq> CHR ''%''" "p \<noteq> CHR ''_''" and ps: "literal_text ps"
    by (simp_all add: literal_text_def)
  show ?case
  proof (cases t)
    case Nil
    with p show ?thesis by simp
  next
    case (Cons c cs)
    with p Cons.IH [OF ps, of cs] show ?thesis
      by (simp add: sql_lower_idem)
  qed
qed

lemma patternCompare_infix:
  assumes "literal_text ps"
  shows "patternCompare (CHR ''%'' # ps @ ''%'') t \<longleftrightarrow>
         substring (map sql_lower ps) (map sql_lower t)"
proof (induction t)
  case Nil
  from patternCompare_prefix [OF assms, of "[]"] show ?case
    by (cases ps) simp_all
next
  case (Cons c cs)
  from patternCompare_prefix [OF assms, of "c # cs"] Cons.IH show ?case
    by simp
qed

lemma literal_text_lower: "literal_text (map sql_lower s) = literal_text s"
  by (simp add: literal_text_def list_all_iff sql_lower_percent sql_lower_underscore
      sql_lower_nul)

lemma until_nul_lower: "until_nul (map sql_lower s) = map sql_lower (until_nul s)"
  by (simp add: until_nul_def takeWhile_map comp_def sql_lower_nul)

lemma until_nul_pattern:
  assumes "literal_text s"
  shows "until_nul (CHR ''%'' # s @ ''%'') = CHR ''%'' # s @ ''%''"
  using assms unfolding until_nul_def takeWhile_eq_all_conv
  by (auto simp: literal_text_def list_all_iff)

lemma until_nul_id: "CHR 0x00 \<notin> set t \<Longrightarrow> until_nul t = t"
  unfolding until_nul_def takeWhile_eq_all_conv by auto

lemma ilike_contains:
  assumes "literal_text s"
  shows "ilike t (CHR ''%'' # s @ ''%'') \<longleftrightarrow> contains_ci s (until_nul t)"
proof -
  have "map sql_lower (CHR ''%'' # s @ ''%'') = CHR ''%'' # map sql_lower s @ ''%''"
    by (simp add: sql_lower_def)
  moreover have l: "literal_text (map sql_lower s)"
    using assms by (simp add: literal_text_lower)
  moreover have "sql_lower \<circ> sql_lower = sql_lower"
    by (rule ext) (simp add: sql_lower_idem)
  ultimately show ?thesis
    by (simp add: ilike_def like_def contains_ci_def until_nul_pattern [OF l] until_nul_lower
        patternCompare_infix [OF l])
qed

lemma contains_ci_Nil: "contains_ci [] t"
  by (induction t) (simp_all add: contains_ci_def)

lemma mset_order_by: "mset (order_by key dir rows) = mset rows"
  by (cases dir) (simp_all add: order_by_def)

lemma set_order_by: "set (order_by key dir rows) = set rows"
  by (cases dir) (simp_all add: order_by_def)

lemma sorted_order_by_asc: "sorted (map key (order_by key Asc rows))"
  by (simp add: order_by_def)

lemma sorted_order_by_desc: "sorted (rev (map key (order_by key Desc rows)))"
  by (simp add: order_by_def rev_map)

lemma order_by_desc_rev: "order_by key Desc rows = rev (order_by key Asc rows)"
  by (simp add: order_by_def)

lemma home_rows_eq:
  "home_rows req d =
     order_by (if get_or (args req) ''sort_by'' ''title'' = ''author'' then Author_name else Book_title)
       (if get_or (args req) ''direction'' ''asc'' = ''asc'' then Asc else Desc)
       (if stripped_search req \<noteq> [] then
          filter (\<lambda>r. ilike (title (fst r)) (CHR ''%'' # stripped_search req @ ''%'') \<or>
                       ilike (name (snd r)) (CHR ''%'' # stripped_search req @ ''%''))
            (join_author d)
        else join_author d)"
  by (simp add: home_rows_def stripped_search_def Let_def)

lemma library_rows_eq:
  "library_rows req d =
     order_by (if get_or (args req) ''sort_by'' ''title'' = ''author'' then Author_name else Book_title)
       (if get_or (args req) ''direction'' ''asc'' = ''desc'' then Desc else Asc)
       (join_author d)"
  by (simp add: library_rows_def Let_def)

lemma home_page:
  assumes "method req \<noteq> POST"
  shows "home req c =
     (Inr (Home_html (map fst (home_rows req (session c))) (Some (stripped_search req))), c)"
  using assms by (simp add: home_def stripped_search_def Let_def)

lemma listed_home:
  assumes "method req \<noteq> POST"
  shows "listed (home req c) = map fst (home_rows req (session c))"
  by (simp add: home_page [OF assms] listed_def)

lemma listed_library_home: "listed (library_home req c) = map fst (library_rows req (session c))"
  by (simp add: library_home_def listed_def)

text \<open>The joined rows, book by book.\<close>

lemma join_author_row:
  "(b, a) \<in> set (join_author d) \<longleftrightarrow>
     b \<in> set (books d) \<and> a \<in> set (authors d) \<and> author_id b = SqlInt (a_id a)"
  by (auto simp: join_author_def)

lemma filter_unique_author:
  assumes "distinct (map a_id xs)" "x \<in> set xs"
  shows "filter (\<lambda>a. a_id x = a_id a) xs = [x]"
  using assms
proof (induction xs)
  case Nil
  then show ?case by simp
next
  case (Cons y ys)
  show ?case
  proof (cases "y = x")
    case True
    with Cons.prems have "\<forall>a \<in> set ys. a_id a \<noteq> a_id x"
      by (auto simp: image_iff)
    then have "filter (\<lambda>a. a_id x = a_id a) ys = []"
      by (auto simp: filter_empty_conv)
    with True show ?thesis by simp
  next
    case False
    with Cons.prems have "x \<in> set ys" "a_id y \<noteq> a_id x" "distinct (map a_id ys)"
      by (auto simp: image_iff)
    with Cons.IH show ?thesis by simp
  qed
qed

lemma matching_authors:
  assumes "distinct (map a_id (authors d))"
  shows "filter (\<lambda>a. author_id b = SqlInt (a_id a)) (authors d) =
     (case Author_query_get (author_id b) d of None \<Rightarrow> [] | Some a \<Rightarrow> [a])"
proof (cases "author_id b")
  case (SqlText t)
  then show ?thesis by (simp add: Author_query_get_def)
next
  case (SqlInt n)
  show ?thesis
  proof (cases "find (\<lambda>a. a_id a = n) (authors d)")
    case None
    then have "\<forall>a \<in> set (authors d). a_id a \<noteq> n"
      by (auto simp: find_None_iff)
    then have "filter (\<lambda>a. n = a_id a) (authors d) = []"
      by (auto simp: filter_empty_conv)
    with None SqlInt show ?thesis by (simp add: Author_query_get_def)
  next
    case (Some x)
    then have "x \<in> set (authors d)" "a_id x = n"
      by (auto simp: find_Some_iff)
    with filter_unique_author [OF assms, of x] Some SqlInt show ?thesis
      by (simp add: Author_query_get_def)
  qed
qed

lemma fst_concat_pairs:
  assumes "\<forall>b \<in> set bs. length (f b) \<le> 1"
  shows "map fst (concat (map (\<lambda>b. map (\<lambda>a. (b, a)) (f b)) bs)) = filter (\<lambda>b. f b \<noteq> []) bs"
  using assms
proof (induction bs)
  case Nil
  show ?case by simp
next
  case (Cons b bs)
  from Cons.prems have "f b = [] \<or> (\<exists>a. f b = [a])"
    by (cases "f b") auto
  with Cons show ?case by auto
qed

lemma join_author_books:
  assumes "distinct (map a_id (authors d))"
  shows "map fst (join_author d) = filter (has_author d) (books d)"
proof -
  let ?f = "\<lambda>b. filter (\<lambda>a. author_id b = SqlInt (a_id a)) (authors d)"
  have one: "\<forall>b \<in> set (books d). length (?f b) \<le> 1"
    by (simp add: matching_authors [OF assms] split: option.splits)
  have "(\<lambda>b. ?f b \<noteq> []) = has_author d"
    by (rule ext) (simp add: matching_authors [OF assms] has_author_def split: option.splits)
  with fst_concat_pairs [OF one] show ?thesis
    by (simp add: join_author_def)
qed


lemma author_of_joined_row:
  assumes "distinct (map a_id (authors d))" "r \<in> set (join_author d)"
  shows "Author_query_get (author_id (fst r)) d = Some (snd r)"
proof -
  from assms(2) have "snd r \<in> set (authors d)" "author_id (fst r) = SqlInt (a_id (snd r))"
    using join_author_row [of "fst r" "snd r" d] by simp_all
  with find_primary_key [OF assms(1), of "snd r"] show ?thesis
    by (simp add: Author_query_get_def)
qed

lemma map_fst_filter:
  assumes "\<forall>r \<in> set rows. P r = Q (fst r)"
  shows "map fst (filter P rows) = filter Q (map fst rows)"
  using assms by (induction rows) auto

lemma keys_of_rows:
  assumes "distinct (map a_id (authors d))" "set rows \<subseteq> set (join_author d)"
  shows "map (author_name_of d) (map fst rows) = map Author_name rows"
    and "map title (map fst rows) = map Book_title rows"
  using assms author_of_joined_row [OF assms(1)]
  by (auto simp: author_name_of_def Author_name_def Book_title_def)

lemma set_home_rows: "set (home_rows req d) \<subseteq> set (join_author d)"
  by (auto simp: home_rows_eq set_order_by)

lemma set_library_rows: "set (library_rows req d) \<subseteq> set (join_author d)"
  by (auto simp: library_rows_eq set_order_by)

lemma listed_library_all:
  assumes "primary_keys_ok (session c)"
  shows "mset (listed (library_home req c)) =
         mset (filter (has_author (session c)) (books (session c)))"
proof -
  from assms have d: "distinct (map a_id (authors (session c)))"
    by (simp add: primary_keys_ok_def)
  have "mset (map fst (library_rows req (session c))) = mset (map fst (join_author (session c)))"
    by (simp add: library_rows_eq mset_order_by)
  then show ?thesis
    by (simp add: listed_library_home join_author_books [OF d])
qed

lemma listed_home_matches:
  assumes "method req \<noteq> POST" and "primary_keys_ok (session c)"
    and "literal_text (stripped_search req)"
  shows "mset (listed (home req c)) =
         mset (filter (matches (session c) (stripped_search req)) (books (session c)))"
proof -
  let ?d = "session c" and ?S = "stripped_search req"
  let ?P = "\<lambda>r. ilike (title (fst r)) (CHR ''%'' # ?S @ ''%'') \<or>
                 ilike (name (snd r)) (CHR ''%'' # ?S @ ''%'')"
  let ?Q = "\<lambda>b. contains_ci ?S (until_nul (title b)) \<or>
                 contains_ci ?S (until_nul (author_name_of ?d b))"
  from assms(2) have d: "distinct (map a_id (authors ?d))"
    by (simp add: primary_keys_ok_def)
  have PQ: "\<forall>r \<in> set (join_author ?d). ?P r = ?Q (fst r)"
    using author_of_joined_row [OF d]
    by (simp add: ilike_contains [OF assms(3)] author_name_of_def)
  have all: "?Q b" if "?S = []" for b
    using that by (simp add: contains_ci_Nil)
  have "mset (map fst (home_rows req ?d)) = mset (map fst (filter ?P (join_author ?d)))"
  proof (cases "?S = []")
    case True
    with all PQ have "filter ?P (join_author ?d) = join_author ?d"
      by (simp add: filter_id_conv)
    with True show ?thesis by (simp add: home_rows_eq mset_order_by)
  next
    case False
    then show ?thesis by (simp add: home_rows_eq mset_order_by)
  qed
  also have "map fst (filter ?P (join_author ?d)) = filter ?Q (map fst (join_author ?d))"
    using PQ by (rule map_fst_filter)
  also have "\<dots> = filter (matches ?d ?S) (books ?d)"
  proof -
    have "matches ?d ?S = (\<lambda>b. has_author ?d b \<and> ?Q b)"
      by (rule ext) (simp add: matches_def)
    then show ?thesis
      by (simp add: join_author_books [OF d])
  qed
  finally show ?thesis
    by (simp add: listed_home [OF assms(1)])
qed

lemma matches_Nil: "matches d [] = has_author d"
  by (rule ext) (simp add: matches_def contains_ci_Nil)





text \<open>
  C6. With unique primary keys in storage, both listings return a page of books ordered
  by the author's name when \<open>sort_by\<close> is \<^verbatim>\<open>author\<close> and by the book's title otherwise,
  ascending for the direction \<^verbatim>\<open>asc\<close> (the default) and descending for \<^verbatim>\<open>desc\<close>. A
  \<open>sort_by\<close> other than \<^verbatim>\<open>author\<close>, recognized or not, gives the very response that
  \<open>sort_by = title\<close> gives, so with the default direction the page ascends by title.
  The page of \<^verbatim>\<open>/library\<close>, and that of the home page without search text, holds every
  book that references a stored author.
\<close>

theorem listing_sorted_by_chosen_key:
  assumes "method req \<noteq> POST" and "primary_keys_ok (session c)"
  shows "fst (home req c) = Inr (Home_html (listed (home req c)) (Some (stripped_search req))) \<and>
     fst (library_home req c) = Inr (Home_html (listed (library_home req c)) None) \<and>
     snd (home req c) = c \<and> snd (library_home req c) = c \<and>
     mset (listed (library_home req c)) =
       mset (filter (has_author (session c)) (books (session c))) \<and>
     (stripped_search req = [] \<longrightarrow>
        mset (listed (home req c)) =
        mset (filter (has_author (session c)) (books (session c)))) \<and>
     (get_or (args req) ''sort_by'' ''title'' = ''author'' \<and>
      get_or (args req) ''direction'' ''asc'' = ''asc'' \<longrightarrow>
        sorted (map (author_name_of (session c)) (listed (home req c))) \<and>
        sorted (map (author_name_of (session c)) (listed (library_home req c)))) \<and>
     (get_or (args req) ''sort_by'' ''title'' = ''author'' \<and>
      get_or (args req) ''direction'' ''asc'' = ''desc'' \<longrightarrow>
        sorted (rev (map (author_name_of (session c)) (listed (home req c)))) \<and>
        sorted (rev (map (author_name_of (session c)) (listed (library_home req c))))) \<and>
     (get_or (args req) ''sort_by'' ''title'' \<noteq> ''author'' \<and>
      get_or (args req) ''direction'' ''asc'' = ''asc'' \<longrightarrow>
        sorted (map title (listed (home req c))) \<and>
        sorted (map title (listed (library_home req c)))) \<and>
     (get_or (args req) ''sort_by'' ''title'' \<noteq> ''author'' \<and>
      get_or (args req) ''direction'' ''asc'' = ''desc'' \<longrightarrow>
        sorted (rev (map title (listed (home req c)))) \<and>
        sorted (rev (map title (listed (library_home req c))))) \<and>
     (get_or (args req) ''sort_by'' ''title'' \<noteq> ''author'' \<longrightarrow>
        home req c = home (req\<lparr>args := (''sort_by'', ''title'') # args req\<rparr>) c \<and>
        library_home req c = library_home (req\<lparr>args := (''sort_by'', ''title'') # args req\<rparr>) c) \<and>
     (get_or (args req) ''sort_by'' ''title'' \<noteq> ''author'' \<and>
      map_of (args req) ''direction'' = None \<longrightarrow>
        sorted (map title (listed (home req c))) \<and>
        sorted (map title (listed (library_home req c))))"
proof -
  let ?d = "session c"
  let ?t = "req\<lparr>args := (''sort_by'', ''title'') # args req\<rparr>"
  from assms(2) have d: "distinct (map a_id (authors ?d))"
    by (simp add: primary_keys_ok_def)
  note kh = keys_of_rows [OF d set_home_rows, of req]
  note kl = keys_of_rows [OF d set_library_rows, of req]
  have pages:
    "fst (home req c) = Inr (Home_html (listed (home req c)) (Some (stripped_search req)))"
    "fst (library_home req c) = Inr (Home_html (listed (library_home req c)) None)"
    "snd (home req c) = c" "snd (library_home req c) = c"
    by (simp_all add: home_page [OF assms(1)] library_home_def listed_def)
  have content: "mset (listed (home req c)) = mset (filter (has_author ?d) (books ?d))"
    if "stripped_search req = []"
  proof -
    from that have "literal_text (stripped_search req)"
      by (simp add: literal_text_def)
    from listed_home_matches [OF assms this] that show ?thesis
      by (simp add: matches_Nil)
  qed
  have fallback: "home req c = home ?t c \<and> library_home req c = library_home ?t c"
    if "get_or (args req) ''sort_by'' ''title'' \<noteq> ''author''"
  proof -
    have "method ?t \<noteq> POST"
      using assms(1) by simp
    moreover have "stripped_search ?t = stripped_search req"
      by (simp add: stripped_search_def get_or_def)
    moreover from that have "home_rows ?t ?d = home_rows req ?d"
      "library_rows ?t ?d = library_rows req ?d"
      by (simp_all add: home_rows_eq library_rows_eq stripped_search_def get_or_def)
    ultimately show ?thesis
      by (simp add: home_page assms(1) library_home_def)
  qed
  have dflt: "get_or (args req) ''direction'' ''asc'' = ''asc''"
    if "map_of (args req) ''direction'' = None"
    using that by (simp add: get_or_def)
  have order: "(get_or (args req) ''sort_by'' ''title'' = ''author'' \<and>
      get_or (args req) ''direction'' ''asc'' = ''asc'' \<longrightarrow>
        sorted (map (author_name_of ?d) (listed (home req c))) \<and>
        sorted (map (author_name_of ?d) (listed (library_home req c)))) \<and>
     (get_or (args req) ''sort_by'' ''title'' = ''author'' \<and>
      get_or (args req) ''direction'' ''asc'' = ''desc'' \<longrightarrow>
        sorted (rev (map (author_name_of ?d) (listed (home req c)))) \<and>
        sorted (rev (map (author_name_of ?d) (listed (library_home req c))))) \<and>
     (get_or (args req) ''sort_by'' ''title'' \<noteq> ''author'' \<and>
      get_or (args req) ''direction'' ''asc'' = ''asc'' \<longrightarrow>
        sorted (map title (listed (home req c))) \<and>
        sorted (map title (listed (library_home req c)))) \<and>
     (get_or (args req) ''sort_by'' ''title'' \<noteq> ''author'' \<and>
      get_or (args req) ''direction'' ''asc'' = ''desc'' \<longrightarrow>
        sorted (rev (map title (listed (home req c)))) \<and>
        sorted (rev (map title (listed (library_home req c)))))"
    unfolding listed_home [OF assms(1)] listed_library_home kh kl
    by (simp add: home_rows_eq library_rows_eq sorted_order_by_asc sorted_order_by_desc)
  from pages listed_library_all [OF assms(2), of req] content fallback dflt order
  show ?thesis by simp
qed

theorem listing_sorted_by_chosen_key_witness:
  "method \<lparr>method = GET, args = [(''sort_by'', ''author''), (''direction'', ''desc'')],
     form = []\<rparr> \<noteq> POST \<and>
   primary_keys_ok library \<and>
   get_or [(''sort_by'', ''author''), (''direction'', ''desc'')] ''sort_by'' ''title'' = ''author'' \<and>
   get_or [(''sort_by'', ''author''), (''direction'', ''desc'')] ''direction'' ''asc'' = ''desc'' \<and>
   get_or [(''sort_by'', ''year'')] ''sort_by'' ''title'' \<noteq> ''author'' \<and>
   map_of [(''sort_by'', ''year'')] ''direction'' = None \<and>
   listed (home \<lparr>method = GET, args = [(''sort_by'', ''author''), (''direction'', ''desc'')],
     form = []\<rparr> (fresh library)) = [mango, apple, zebra] \<and>
   sorted (rev (map (author_name_of library) [mango, apple, zebra])) \<and>
   listed (library_home \<lparr>method = GET, args = [(''sort_by'', ''year'')], form = []\<rparr>
     (fresh library)) = [mango, zebra, apple] \<and>
   sorted (map title [mango, zebra, apple])"
proof -
  let ?r1 = "\<lparr>method = GET, args = [(''sort_by'', ''author''), (''direction'', ''desc'')],
     form = []\<rparr>"
  let ?r2 = "\<lparr>method = GET, args = [(''sort_by'', ''year'')], form = []\<rparr>"
  have m: "method ?r1 \<noteq> POST" "method ?r2 \<noteq> POST"
    by simp_all
  have wl: "primary_keys_ok (session (fresh library))"
    by (simp add: primary_keys_ok_def fresh_def library_def int64_def
        ann_def bob_def zebra_def apple_def mango_def)
  have h1: "get_or (args ?r1) ''sort_by'' ''title'' = ''author''"
    "get_or (args ?r1) ''direction'' ''asc'' = ''desc''"
    and h2: "get_or (args ?r2) ''sort_by'' ''title'' \<noteq> ''author''"
    "map_of (args ?r2) ''direction'' = None"
    by (simp_all add: get_or_def)
  have e1: "listed (home ?r1 (fresh library)) = [mango, apple, zebra]"
    by (simp add: listed_def home_def home_rows_def Let_def get_or_def strip_def
        join_author_def order_by_def Author_name_def fresh_def library_def
        ann_def bob_def zebra_def apple_def mango_def)
  have e2: "listed (library_home ?r2 (fresh library)) = [mango, zebra, apple]"
    by (simp add: listed_def library_home_def library_rows_def Let_def get_or_def
        join_author_def order_by_def Book_title_def fresh_def library_def
        ann_def bob_def zebra_def apple_def mango_def)
  from listing_sorted_by_chosen_key [OF m(1) wl] h1
  have "sorted (rev (map (author_name_of (session (fresh library)))
      (listed (home ?r1 (fresh library)))))"
    by blast
  then have s1: "sorted (rev (map (author_name_of library) [mango, apple, zebra]))"
    by (simp only: e1) (simp only: fresh_def ctx.simps)
  from listing_sorted_by_chosen_key [OF m(2) wl] h2
  have "sorted (map title (listed (library_home ?r2 (fresh library))))"
    by blast
  then have s2: "sorted (map title [mango, zebra, apple])"
    by (simp only: e2)
  have wl': "primary_keys_ok library"
    using wl by (simp add: fresh_def)
  have h1': "get_or [(''sort_by'', ''author''), (''direction'', ''desc'')] ''sort_by'' ''title'' =
      ''author''"
    "get_or [(''sort_by'', ''author''), (''direction'', ''desc'')] ''direction'' ''asc'' = ''desc''"
    and h2': "get_or [(''sort_by'', ''year'')] ''sort_by'' ''title'' \<noteq> ''author''"
    "map_of [(''sort_by'', ''year'')] ''direction'' = None"
    using h1 h2 by simp_all
  from m(1) wl' h1' h2' e1 e2 s1 s2 show ?thesis
    by blast
qed

text \<open>
  C10, as stated: for any direction outside \<^verbatim>\<open>asc\<close> and \<^verbatim>\<open>desc\<close> the two listings
  return the same set in opposite orders. With the direction \<^verbatim>\<open>up\<close> and the search
  text \<^verbatim>\<open>zebra\<close> the home page returns the one book Zebra and \<^verbatim>\<open>/library\<close>, which
  reads no search text, all three books.
\<close>

theorem listing_direction_counterexample:
  "listed (home \<lparr>method = GET, args = [(''direction'', ''up''), (''search'', ''zebra'')],
     form = []\<rparr> (fresh library)) = [zebra] \<and>
   listed (library_home \<lparr>method = GET, args = [(''direction'', ''up''), (''search'', ''zebra'')],
     form = []\<rparr> (fresh library)) = [mango, zebra, apple]"
  by (simp add: listed_def home_def home_rows_def library_home_def library_rows_def Let_def
      get_or_def strip_def isspace_def ilike_def like_def until_nul_def sql_lower_def
      join_author_def order_by_def Book_title_def fresh_def library_def
      ann_def bob_def zebra_def apple_def mango_def)

text \<open>
  C10, amended: the two listings read an unrecognized direction in opposite ways. With
  unique primary keys in storage, the home page orders its page descending for every
  direction other than \<^verbatim>\<open>asc\<close>, and \<^verbatim>\<open>/library\<close> orders its page, which holds every
  book that references a stored author, ascending for every direction other than
  \<^verbatim>\<open>desc\<close>. For a direction that is neither, and a request without search text (which
  only the home page reads), both pages hold the same books, the keys of one in the
  reverse order of the keys of the other.
\<close>

theorem listing_direction_fallbacks_differ:
  assumes "method req \<noteq> POST" and "primary_keys_ok (session c)"
  shows "mset (listed (library_home req c)) =
       mset (filter (has_author (session c)) (books (session c))) \<and>
     (get_or (args req) ''direction'' ''asc'' \<noteq> ''asc'' \<longrightarrow>
        sorted (rev (map (if get_or (args req) ''sort_by'' ''title'' = ''author''
                          then author_name_of (session c) else title)
                      (listed (home req c))))) \<and>
     (get_or (args req) ''direction'' ''asc'' \<noteq> ''desc'' \<longrightarrow>
        sorted (map (if get_or (args req) ''sort_by'' ''title'' = ''author''
                     then author_name_of (session c) else title)
                 (listed (library_home req c)))) \<and>
     (get_or (args req) ''direction'' ''asc'' \<noteq> ''asc'' \<and>
      get_or (args req) ''direction'' ''asc'' \<noteq> ''desc'' \<and>
      stripped_search req = [] \<longrightarrow>
        mset (listed (home req c)) = mset (listed (library_home req c)) \<and>
        map (if get_or (args req) ''sort_by'' ''title'' = ''author''
             then author_name_of (session c) else title) (listed (home req c)) =
        rev (map (if get_or (args req) ''sort_by'' ''title'' = ''author''
                  then author_name_of (session c) else title) (listed (library_home req c))))"
proof -
  let ?d = "session c"
  from assms(2) have d: "distinct (map a_id (authors ?d))"
    by (simp add: primary_keys_ok_def)
  note kh = keys_of_rows [OF d set_home_rows, of req]
  note kl = keys_of_rows [OF d set_library_rows, of req]
  have keys: "map (if get_or (args req) ''sort_by'' ''title'' = ''author''
        then author_name_of ?d else title) (listed (home req c)) =
      map (if get_or (args req) ''sort_by'' ''title'' = ''author''
        then Author_name else Book_title) (home_rows req ?d)"
    "map (if get_or (args req) ''sort_by'' ''title'' = ''author''
        then author_name_of ?d else title) (listed (library_home req c)) =
      map (if get_or (args req) ''sort_by'' ''title'' = ''author''
        then Author_name else Book_title) (library_rows req ?d)"
    using kh kl by (simp_all add: listed_home [OF assms(1)] listed_library_home)
  have sets: "mset (listed (home req c)) = mset (listed (library_home req c))"
    if "stripped_search req = []"
    using that
    by (simp add: listed_home [OF assms(1)] listed_library_home home_rows_eq library_rows_eq
        mset_order_by)
  have order: "(get_or (args req) ''direction'' ''asc'' \<noteq> ''asc'' \<longrightarrow>
        sorted (rev (map (if get_or (args req) ''sort_by'' ''title'' = ''author''
                          then Author_name else Book_title) (home_rows req ?d)))) \<and>
     (get_or (args req) ''direction'' ''asc'' \<noteq> ''desc'' \<longrightarrow>
        sorted (map (if get_or (args req) ''sort_by'' ''title'' = ''author''
                     then Author_name else Book_title) (library_rows req ?d))) \<and>
     (get_or (args req) ''direction'' ''asc'' \<noteq> ''asc'' \<and>
      get_or (args req) ''direction'' ''asc'' \<noteq> ''desc'' \<and>
      stripped_search req = [] \<longrightarrow>
        map (if get_or (args req) ''sort_by'' ''title'' = ''author''
             then Author_name else Book_title) (home_rows req ?d) =
        rev (map (if get_or (args req) ''sort_by'' ''title'' = ''author''
                  then Author_name else Book_title) (library_rows req ?d)))"
    by (simp add: home_rows_eq library_rows_eq sorted_order_by_asc sorted_order_by_desc
        order_by_desc_rev rev_map)
  from listed_library_all [OF assms(2), of req] sets order show ?thesis
    unfolding keys by simp
qed

theorem listing_direction_fallbacks_differ_witness:
  "method \<lparr>method = GET, args = [(''direction'', ''up'')], form = []\<rparr> \<noteq> POST \<and>
   primary_keys_ok library \<and>
   get_or [(''direction'', ''up'')] ''direction'' ''asc'' \<noteq> ''asc'' \<and>
   get_or [(''direction'', ''up'')] ''direction'' ''asc'' \<noteq> ''desc'' \<and>
   stripped_search \<lparr>method = GET, args = [(''direction'', ''up'')], form = []\<rparr> = [] \<and>
   get_or [(''direction'', ''up'')] ''sort_by'' ''title'' \<noteq> ''author'' \<and>
   listed (library_home \<lparr>method = GET, args = [(''direction'', ''up'')], form = []\<rparr>
     (fresh library)) = [mango, zebra, apple] \<and>
   map title (listed (home \<lparr>method = GET, args = [(''direction'', ''up'')], form = []\<rparr>
     (fresh library))) = [''apple'', ''Zebra'', ''Mango''] \<and>
   mset (listed (home \<lparr>method = GET, args = [(''direction'', ''up'')], form = []\<rparr>
     (fresh library))) = mset [mango, zebra, apple]"
proof -
  let ?r = "\<lparr>method = GET, args = [(''direction'', ''up'')], form = []\<rparr>"
  have m: "method ?r \<noteq> POST"
    by simp
  have wl: "primary_keys_ok (session (fresh library))"
    by (simp add: primary_keys_ok_def fresh_def library_def int64_def
        ann_def bob_def zebra_def apple_def mango_def)
  have h: "get_or (args ?r) ''direction'' ''asc'' \<noteq> ''asc''"
    "get_or (args ?r) ''direction'' ''asc'' \<noteq> ''desc''"
    "stripped_search ?r = []"
    "get_or (args ?r) ''sort_by'' ''title'' \<noteq> ''author''"
    by (simp_all add: stripped_search_def get_or_def strip_def)
  have l: "listed (library_home ?r (fresh library)) = [mango, zebra, apple]"
    by (simp add: listed_def library_home_def library_rows_def Let_def get_or_def
        join_author_def order_by_def Book_title_def fresh_def library_def
        ann_def bob_def zebra_def apple_def mango_def)
  have t: "map title [mango, zebra, apple] = [''Mango'', ''Zebra'', ''apple'']"
    by (simp add: zebra_def apple_def mango_def)
  from listing_direction_fallbacks_differ [OF m wl] h(1-3)
  have eq: "mset (listed (home ?r (fresh library))) = mset (listed (library_home ?r (fresh library)))"
    and keys: "map (if get_or (args ?r) ''sort_by'' ''title'' = ''author''
        then author_name_of (session (fresh library)) else title) (listed (home ?r (fresh library))) =
      rev (map (if get_or (args ?r) ''sort_by'' ''title'' = ''author''
        then author_name_of (session (fresh library)) else title)
          (listed (library_home ?r (fresh library))))"
    by blast+
  from keys h(4) have k: "map title (listed (home ?r (fresh library))) =
      [''apple'', ''Zebra'', ''Mango'']"
    by (simp add: l zebra_def apple_def mango_def)
  from eq have q: "mset (listed (home ?r (fresh library))) = mset [mango, zebra, apple]"
    by (simp only: l)
  have wl': "primary_keys_ok library"
    using wl by (simp add: fresh_def)
  have h': "get_or [(''direction'', ''up'')] ''direction'' ''asc'' \<noteq> ''asc''"
    "get_or [(''direction'', ''up'')] ''direction'' ''asc'' \<noteq> ''desc''"
    "get_or [(''direction'', ''up'')] ''sort_by'' ''title'' \<noteq> ''author''"
    using h by simp_all
  from m wl' h' h(3) l k q show ?thesis
    by blast
qed

end
